theory Spec2Isabelle
  imports Main "HOL-Library.Word"
begin

section \<open>Pico firmware: data model (src/pico\_firmware/main.c)\<close>

text \<open>
  The firmware's integers are fixed-width: \<open>int32_t\<close> and \<open>uint32_t\<close> are \<open>32 word\<close>
  (read signed with \<open>sint\<close>, unsigned with \<open>unat\<close>), \<open>uint64_t\<close> is \<open>64 word\<close>.
  Word arithmetic wraps, which is what the Cortex-M0+ target does for \<open>++\<close>, \<open>--\<close>,
  \<open>-\<close> and \<open>*\<close> on 32-bit registers; comparison, \<open>div\<close> and \<open>mod\<close> on words are the
  unsigned ones.
\<close>

type_synonym int32_t = "32 word"
type_synonym uint32_t = "32 word"
type_synonym uint64_t = "64 word"
type_synonym uint = "32 word"

definition ENCODER_A_PIN :: uint where "ENCODER_A_PIN = 16"
definition ENCODER_B_PIN :: uint where "ENCODER_B_PIN = 17"
definition ENCODER_INDEX_PIN :: uint where "ENCODER_INDEX_PIN = 18"
definition CAMERA_TRIGGER_PIN :: uint where "CAMERA_TRIGGER_PIN = 22"
definition STATUS_LED_PIN :: uint where "STATUS_LED_PIN = 2"
definition ERROR_LED_PIN :: uint where "ERROR_LED_PIN = 3"

definition IMU_WHO_AM_I :: "8 word" where "IMU_WHO_AM_I = 0x75"
definition IMU_ACCEL_XOUT_H :: "8 word" where "IMU_ACCEL_XOUT_H = 0x3B"

definition IMU_SAMPLE_RATE_HZ :: uint64_t where "IMU_SAMPLE_RATE_HZ = 1000"
definition ENCODER_TRIGGER_INTERVAL :: uint32_t where "ENCODER_TRIGGER_INTERVAL = 100"

text \<open>
  \<open>sensor_data_t\<close>. The six \<open>float\<close> fields are carried as the raw 16-bit register
  values they are computed from (\<open>accel = raw / 2048.0f\<close>, \<open>gyro = raw / 16.384f\<close>);
  the floating-point scaling itself is not modelled.
\<close>

record sensor_data_t =
  timestamp_us :: uint64_t
  encoder_position :: int32_t
  encoder_velocity :: int32_t
  accel_x_raw :: "16 word"
  accel_y_raw :: "16 word"
  accel_z_raw :: "16 word"
  gyro_x_raw :: "16 word"
  gyro_y_raw :: "16 word"
  gyro_z_raw :: "16 word"
  data_camera_trigger_count :: uint32_t
  system_status :: "8 word"

record encoder_state_t =
  position :: int32_t
  velocity :: int32_t
  pulse_count :: uint32_t
  last_pulse_time :: uint64_t
  index_detected :: bool

text \<open>
  What the firmware does, in program order: the mutex operations, the I/O, and the
  stores into the fields of \<open>current_data\<close>.
\<close>

datatype mutex_t = data_mutex | uart_mutex

datatype sample_field =
    Timestamp_us | Encoder_position | Encoder_velocity
  | Accel_x | Accel_y | Accel_z | Gyro_x | Gyro_y | Gyro_z
  | Camera_trigger_count | System_status

datatype uart_msg =
    Imu_Error_Msg
  | Telemetry_Json sensor_data_t

datatype io_event =
    Mutex_Enter mutex_t
  | Mutex_Exit mutex_t
  | Gpio_Put uint bool
  | Sleep_Us nat
  | I2c_Write "8 word"
  | I2c_Read nat
  | Uart_Puts uart_msg
  | Store_Sample sample_field

text \<open>
  The globals of main.c together with the function-local \<open>static\<close> variables
  (\<open>last_velocity_update\<close> and \<open>last_position\<close> of \<open>update_encoder_velocity\<close>,
  \<open>last_imu_read\<close> and \<open>last_status_update\<close> of \<open>data_acquisition_loop\<close>,
  \<open>led_state\<close> of \<open>status_led_toggle\<close>) and the log of the steps performed so far.
\<close>

record firmware =
  encoder_state :: encoder_state_t
  current_data :: sensor_data_t
  system_initialized :: bool
  camera_trigger_count :: uint32_t
  system_start_time :: uint64_t
  last_velocity_update :: uint64_t
  last_position :: int32_t
  last_imu_read :: uint64_t
  last_status_update :: uint64_t
  led_state :: bool
  io_log :: "io_event list"

definition emit :: "io_event list \<Rightarrow> firmware \<Rightarrow> firmware" where
  "emit evs s = s\<lparr>io_log := io_log s @ evs\<rparr>"

section \<open>Interrupt context\<close>

text \<open>
  \<open>camera_trigger\<close>: pin high, busy-wait 100 microseconds, pin low.
\<close>

definition camera_trigger :: "firmware \<Rightarrow> firmware" where
  "camera_trigger s =
     emit [Gpio_Put CAMERA_TRIGGER_PIN True, Sleep_Us 100, Gpio_Put CAMERA_TRIGGER_PIN False] s"

text \<open>
  The expression \<open>(position_diff * 1000000) / time_diff\<close> assigned to the \<open>int32_t\<close>
  velocity. \<open>position_diff\<close> is \<open>int32_t\<close> and \<open>1000000\<close> is \<open>int\<close>, so the product is a
  32-bit product; \<open>time_diff\<close> is \<open>uint64_t\<close>, so the usual arithmetic conversions turn
  the product into a \<open>uint64_t\<close> (sign-extended, \<open>scast\<close>) and the division is the
  unsigned 64-bit one; the assignment keeps the low 32 bits (\<open>ucast\<close>).
\<close>

definition velocity_expr :: "int32_t \<Rightarrow> uint64_t \<Rightarrow> int32_t" where
  "velocity_expr position_diff time_diff =
     ucast ((scast (position_diff * 1000000) :: uint64_t) div time_diff)"

text \<open>
  \<open>update_encoder_velocity\<close>. The argument \<open>current_time\<close> is what its call of
  \<open>get_timestamp_us()\<close> returns. Besides the new state the model reports which branch
  was taken: the 10 ms test failed, the test passed and the inner guard \<open>time_diff > 0\<close>
  failed, or the velocity was assigned.
\<close>

datatype velocity_path = Rate_Limited | Guard_Skipped | Estimated

definition update_encoder_velocity :: "uint64_t \<Rightarrow> firmware \<Rightarrow> velocity_path \<times> firmware" where
  "update_encoder_velocity current_time s =
     (if current_time - last_velocity_update s \<ge> 10000 then
        let position_diff = position (encoder_state s) - last_position s;
            time_diff = current_time - last_velocity_update s;
            (path, s1) =
              (if time_diff > 0
               then (Estimated,
                     s\<lparr>encoder_state := (encoder_state s)\<lparr>velocity := velocity_expr position_diff time_diff\<rparr>\<rparr>)
               else (Guard_Skipped, s))
        in (path, s1\<lparr>last_position := position (encoder_state s1),
                     last_velocity_update := current_time\<rparr>)
      else (Rate_Limited, s))"

text \<open>
  What one invocation of \<open>encoder_irq_handler\<close> reads from the hardware: the clock at its
  own \<open>get_timestamp_us()\<close>, the levels of pins B and A (\<open>gpio_get\<close>), and the clock at
  the later \<open>get_timestamp_us()\<close> inside \<open>update_encoder_velocity\<close>.
\<close>

record irq_inputs =
  edge_clock :: uint64_t
  level_b :: bool
  level_a :: bool
  velocity_clock :: uint64_t

text \<open>The phase-A branch of the handler up to, not including, \<open>update_encoder_velocity()\<close>.\<close>

definition phase_a_edge :: "irq_inputs \<Rightarrow> firmware \<Rightarrow> firmware" where
  "phase_a_edge inp s =
     (let current_time = edge_clock inp;
          b_state = level_b inp;
          a_state = level_a inp;
          es = encoder_state s;
          es1 = (if a_state = b_state then es\<lparr>position := position es + 1\<rparr>
                 else es\<lparr>position := position es - 1\<rparr>);
          es2 = es1\<lparr>pulse_count := pulse_count es1 + 1\<rparr>;
          es3 = es2\<lparr>last_pulse_time := current_time\<rparr>;
          s1 = s\<lparr>encoder_state := es3\<rparr>
      in if pulse_count es3 mod ENCODER_TRIGGER_INTERVAL = 0
         then (let s2 = camera_trigger s1
               in s2\<lparr>camera_trigger_count := camera_trigger_count s2 + 1\<rparr>)
         else s1)"

definition encoder_irq_handler :: "uint \<Rightarrow> uint32_t \<Rightarrow> irq_inputs \<Rightarrow> firmware \<Rightarrow> firmware" where
  "encoder_irq_handler gpio events inp s =
     (if gpio = ENCODER_A_PIN then
        snd (update_encoder_velocity (velocity_clock inp) (phase_a_edge inp s))
      else if gpio = ENCODER_INDEX_PIN then
        s\<lparr>encoder_state := (encoder_state s)\<lparr>index_detected := True\<rparr>\<rparr>
      else s)"

text \<open>
  One interrupt is the handler's two arguments and what it reads from the hardware. A run
  of interrupts, each handler invocation completing before the next starts.
\<close>

type_synonym irq = "uint \<times> uint32_t \<times> irq_inputs"

fun run_irqs :: "irq list \<Rightarrow> firmware \<Rightarrow> firmware" where
  "run_irqs [] s = s"
| "run_irqs ((gpio, events, inp) # rest) s = run_irqs rest (encoder_irq_handler gpio events inp s)"

text \<open>
  The camera trigger fired in an invocation when the I/O the invocation added to the log
  raises the trigger pin. \<open>trigger_edges k\<close> lists the ordinals, counted from \<open>k\<close>, of the
  invocations of a run in which it fired.
\<close>

definition trigger_fired :: "irq \<Rightarrow> firmware \<Rightarrow> bool" where
  "trigger_fired e s =
     (case e of (gpio, events, inp) \<Rightarrow>
        Gpio_Put CAMERA_TRIGGER_PIN True
          \<in> set (drop (length (io_log s)) (io_log (encoder_irq_handler gpio events inp s))))"

fun trigger_edges :: "nat \<Rightarrow> irq list \<Rightarrow> firmware \<Rightarrow> nat list" where
  "trigger_edges k [] s = []"
| "trigger_edges k (e # rest) s =
     (if trigger_fired e s then [k] else []) @ trigger_edges (Suc k) rest (run_irqs [e] s)"

text \<open>
  An invocation made a new velocity estimate when it is a phase-A invocation whose call
  of \<open>update_encoder_velocity\<close> assigned the velocity. \<open>velocity_updates\<close> counts them
  over a run.
\<close>

definition velocity_estimated :: "irq \<Rightarrow> firmware \<Rightarrow> bool" where
  "velocity_estimated e s =
     (case e of (gpio, events, inp) \<Rightarrow>
        gpio = ENCODER_A_PIN \<and>
        fst (update_encoder_velocity (velocity_clock inp) (phase_a_edge inp s)) = Estimated)"

fun velocity_updates :: "irq list \<Rightarrow> firmware \<Rightarrow> nat" where
  "velocity_updates [] s = 0"
| "velocity_updates (e # rest) s =
     (if velocity_estimated e s then 1 else 0) + velocity_updates rest (run_irqs [e] s)"

definition irq_gpio :: "irq \<Rightarrow> uint" where
  "irq_gpio e = fst e"

definition irq_velocity_clock :: "irq \<Rightarrow> uint64_t" where
  "irq_velocity_clock e = velocity_clock (snd (snd e))"

section \<open>Start-up state\<close>

text \<open>The static initialisers of main.c: every global and every local static is zero.\<close>

definition zero_sensor_data :: sensor_data_t where
  "zero_sensor_data =
     \<lparr>timestamp_us = 0, encoder_position = 0, encoder_velocity = 0,
      accel_x_raw = 0, accel_y_raw = 0, accel_z_raw = 0,
      gyro_x_raw = 0, gyro_y_raw = 0, gyro_z_raw = 0,
      data_camera_trigger_count = 0, system_status = 0\<rparr>"

definition boot_state :: firmware where
  "boot_state =
     \<lparr>encoder_state = \<lparr>position = 0, velocity = 0, pulse_count = 0, last_pulse_time = 0,
                        index_detected = False\<rparr>,
      current_data = zero_sensor_data,
      system_initialized = False,
      camera_trigger_count = 0,
      system_start_time = 0,
      last_velocity_update = 0,
      last_position = 0,
      last_imu_read = 0,
      last_status_update = 0,
      led_state = False,
      io_log = []\<rparr>"

text \<open>
  \<open>encoder_init\<close>; \<open>now\<close> is what \<open>get_timestamp_us()\<close> returns. Enabling the two
  interrupts is what makes the runs above possible and leaves no trace in the state.
\<close>

definition encoder_init :: "uint64_t \<Rightarrow> firmware \<Rightarrow> firmware" where
  "encoder_init now s =
     s\<lparr>encoder_state := \<lparr>position = 0, velocity = 0, pulse_count = 0, last_pulse_time = now,
                          index_detected = False\<rparr>\<rparr>"

section \<open>Main context\<close>

text \<open>
  \<open>imu_read_data\<close>, called on \<open>current_data\<close>: a register-pointer write and a
  14-byte read on the I2C bus, then the big-endian 16-bit values
  \<open>(buffer[i] << 8) | buffer[i + 1]\<close> stored into the six sensor fields. \<open>buffer\<close> is
  what the read delivers, indexed from 0.
\<close>

definition be16 :: "8 word \<Rightarrow> 8 word \<Rightarrow> 16 word" where
  "be16 hi lo = or (push_bit 8 (ucast hi)) (ucast lo)"

definition imu_read_data :: "(nat \<Rightarrow> 8 word) \<Rightarrow> firmware \<Rightarrow> firmware" where
  "imu_read_data buffer s =
     (let s1 = emit [I2c_Write IMU_ACCEL_XOUT_H, I2c_Read 14] s;
          s2 = emit [Store_Sample Accel_x, Store_Sample Accel_y, Store_Sample Accel_z,
                     Store_Sample Gyro_x, Store_Sample Gyro_y, Store_Sample Gyro_z] s1
      in s2\<lparr>current_data := (current_data s2)
            \<lparr>accel_x_raw := be16 (buffer 0) (buffer 1),
             accel_y_raw := be16 (buffer 2) (buffer 3),
             accel_z_raw := be16 (buffer 4) (buffer 5),
             gyro_x_raw := be16 (buffer 8) (buffer 9),
             gyro_y_raw := be16 (buffer 10) (buffer 11),
             gyro_z_raw := be16 (buffer 12) (buffer 13)\<rparr>\<rparr>)"

text \<open>
  \<open>send_data_uart\<close>, called on \<open>current_data\<close>: takes \<open>uart_mutex\<close>, formats the record
  and writes it to the UART, releases \<open>uart_mutex\<close>. The formatted text is represented
  by the record it is formatted from.
\<close>

definition send_data_uart :: "firmware \<Rightarrow> firmware" where
  "send_data_uart s =
     emit [Mutex_Enter uart_mutex, Uart_Puts (Telemetry_Json (current_data s)),
           Mutex_Exit uart_mutex] s"

definition status_led_toggle :: "firmware \<Rightarrow> firmware" where
  "status_led_toggle s =
     (let s1 = s\<lparr>led_state := \<not> led_state s\<rparr>
      in emit [Gpio_Put STATUS_LED_PIN (led_state s1)] s1)"

text \<open>
  \<open>system_health_check\<close> with \<open>imu_self_test\<close> inlined; \<open>who_am_i\<close> is the byte the
  identity register read delivers.
\<close>

definition system_health_check :: "8 word \<Rightarrow> firmware \<Rightarrow> firmware" where
  "system_health_check who_am_i s =
     (let s1 = emit [I2c_Write IMU_WHO_AM_I, I2c_Read 1] s;
          imu_ok = (who_am_i = 0x71)
      in if \<not> imu_ok
         then emit [Gpio_Put ERROR_LED_PIN True, Mutex_Enter uart_mutex, Uart_Puts Imu_Error_Msg,
                    Mutex_Exit uart_mutex] s1
         else emit [Gpio_Put ERROR_LED_PIN False] s1)"

text \<open>
  One pass through the body of the \<open>while (true)\<close> of \<open>data_acquisition_loop\<close>, with
  what the pass reads from the hardware.
\<close>

record loop_inputs =
  loop_clock :: uint64_t
  imu_buffer :: "nat \<Rightarrow> 8 word"
  who_am_i_byte :: "8 word"

definition sample_due :: "uint64_t \<Rightarrow> firmware \<Rightarrow> bool" where
  "sample_due current_time s = (current_time - last_imu_read s \<ge> 1000000 div IMU_SAMPLE_RATE_HZ)"

definition loop_iteration :: "loop_inputs \<Rightarrow> firmware \<Rightarrow> firmware" where
  "loop_iteration inp s =
     (let current_time = loop_clock inp;
          s1 = (if sample_due current_time s then
                  let a0 = emit [Mutex_Enter data_mutex] s;
                      a = emit [Store_Sample Timestamp_us, Store_Sample Encoder_position,
                                Store_Sample Encoder_velocity, Store_Sample Camera_trigger_count,
                                Store_Sample System_status] a0;
                      b = a\<lparr>current_data := (current_data a)
                             \<lparr>timestamp_us := current_time,
                              encoder_position := position (encoder_state a),
                              encoder_velocity := velocity (encoder_state a),
                              data_camera_trigger_count := camera_trigger_count a,
                              system_status := (if system_initialized a then 1 else 0)\<rparr>\<rparr>;
                      c = imu_read_data (imu_buffer inp) b;
                      d = send_data_uart c;
                      e = emit [Mutex_Exit data_mutex] d
                  in e\<lparr>last_imu_read := current_time\<rparr>
                else s);
          s2 = (if current_time - last_status_update s1 \<ge> 1000000
                then (status_led_toggle s1)\<lparr>last_status_update := current_time\<rparr>
                else s1);
          s3 = (if current_time mod 10000000 = 0
                then system_health_check (who_am_i_byte inp) s2
                else s2)
      in emit [Sleep_Us 100] s3)"

text \<open>
  The steps of one pass; the bus and serial operations in a sequence of steps that happen
  while a given mutex is held (\<open>held\<close> says whether it is held at the start); and the
  operations on a given mutex in a sequence of steps.
\<close>

definition iteration_io :: "loop_inputs \<Rightarrow> firmware \<Rightarrow> io_event list" where
  "iteration_io inp s = drop (length (io_log s)) (io_log (loop_iteration inp s))"

fun is_bus_io :: "io_event \<Rightarrow> bool" where
  "is_bus_io (I2c_Write r) = True"
| "is_bus_io (I2c_Read n) = True"
| "is_bus_io (Uart_Puts m) = True"
| "is_bus_io (Mutex_Enter m) = False"
| "is_bus_io (Mutex_Exit m) = False"
| "is_bus_io (Gpio_Put p v) = False"
| "is_bus_io (Sleep_Us n) = False"
| "is_bus_io (Store_Sample f) = False"

fun io_while_held :: "mutex_t \<Rightarrow> bool \<Rightarrow> io_event list \<Rightarrow> io_event list" where
  "io_while_held m held [] = []"
| "io_while_held m held (e # es) =
     (if e = Mutex_Enter m then io_while_held m True es
      else if e = Mutex_Exit m then io_while_held m False es
      else if held \<and> is_bus_io e then e # io_while_held m held es
      else io_while_held m held es)"

definition mutex_events :: "mutex_t \<Rightarrow> io_event list \<Rightarrow> io_event list" where
  "mutex_events m evs = filter (\<lambda>e. e = Mutex_Enter m \<or> e = Mutex_Exit m) evs"

section \<open>Auxiliary notions and concrete inputs\<close>

text \<open>The number of phase-A invocations in a run.\<close>

definition a_edge_count :: "irq list \<Rightarrow> nat" where
  "a_edge_count es = length (filter (\<lambda>e. irq_gpio e = ENCODER_A_PIN) es)"

text \<open>The relation between the two counters that the phase-A branch maintains.\<close>

definition trigger_count_inv :: "firmware \<Rightarrow> bool" where
  "trigger_count_inv s \<longleftrightarrow>
     unat (camera_trigger_count s) = unat (pulse_count (encoder_state s)) div 100"

text \<open>
  The velocity in the words of the specification: the signed quotient
  \<open>(position_delta * 1000000) / time_delta_us\<close> on mathematical integers, rounded
  towards zero.
\<close>

definition velocity_quotient_spec :: "int \<Rightarrow> int \<Rightarrow> int" where
  "velocity_quotient_spec position_delta time_delta_us =
     sgn (position_delta * 1000000) * sgn time_delta_us *
       (\<bar>position_delta * 1000000\<bar> div \<bar>time_delta_us\<bar>)"

text \<open>
  Phase-A edges read at clock value \<open>t\<close>: one with A and B different (the position
  counts down), one with A and B equal (it counts up).
\<close>

definition reverse_edge :: "uint64_t \<Rightarrow> irq" where
  "reverse_edge t =
     (ENCODER_A_PIN, 8, \<lparr>edge_clock = t, level_b = False, level_a = True, velocity_clock = t\<rparr>)"

definition forward_edge :: "uint64_t \<Rightarrow> irq" where
  "forward_edge t =
     (ENCODER_A_PIN, 8, \<lparr>edge_clock = t, level_b = True, level_a = True, velocity_clock = t\<rparr>)"

text \<open>Five edges of reverse motion, 2 ms apart, the last one 10 ms after boot.\<close>

definition five_reverse_edges :: "irq list" where
  "five_reverse_edges = map reverse_edge [2000, 4000, 6000, 8000, 10000]"

text \<open>A burst of 1000 edges: 500 at clock value 20000 and 500 at 20900.\<close>

definition burst_of_1000 :: "irq list" where
  "burst_of_1000 = replicate 500 (forward_edge 20000) @ replicate 500 (forward_edge 20900)"

text \<open>
  The state in which the sampling loop starts when start-up ran at clock value 0 (the
  I/O of start-up is left out of the log), and a pass at clock value 1000 with an
  inertial sensor that reads all zero.
\<close>

definition started_state :: firmware where
  "started_state = (encoder_init 0 boot_state)\<lparr>system_initialized := True\<rparr>"

definition imu_all_zero :: "nat \<Rightarrow> 8 word" where
  "imu_all_zero i = 0"

definition first_sample_inputs :: loop_inputs where
  "first_sample_inputs = \<lparr>loop_clock = 1000, imu_buffer = imu_all_zero, who_am_i_byte = 0x71\<rparr>"

section \<open>Properties of the interrupt handler\<close>

subsection \<open>What each part of the handler touches\<close>

lemma io_log_emit [simp]: "io_log (emit evs s) = io_log s @ evs"
  by (simp add: emit_def)

lemma update_velocity_frame:
  "position (encoder_state (snd (update_encoder_velocity t s))) = position (encoder_state s)"
  "pulse_count (encoder_state (snd (update_encoder_velocity t s))) = pulse_count (encoder_state s)"
  "last_pulse_time (encoder_state (snd (update_encoder_velocity t s))) = last_pulse_time (encoder_state s)"
  "index_detected (encoder_state (snd (update_encoder_velocity t s))) = index_detected (encoder_state s)"
  "camera_trigger_count (snd (update_encoder_velocity t s)) = camera_trigger_count s"
  "io_log (snd (update_encoder_velocity t s)) = io_log s"
  by (simp_all add: update_encoder_velocity_def Let_def)

lemma phase_a_edge_frame:
  "last_velocity_update (phase_a_edge inp s) = last_velocity_update s"
  "last_position (phase_a_edge inp s) = last_position s"
  by (simp_all add: phase_a_edge_def Let_def camera_trigger_def emit_def)

lemma phase_a_edge_pulse_count:
  "pulse_count (encoder_state (phase_a_edge inp s)) = pulse_count (encoder_state s) + 1"
  by (simp add: phase_a_edge_def Let_def camera_trigger_def emit_def)

lemma phase_a_edge_trigger_count:
  "camera_trigger_count (phase_a_edge inp s) =
     (if (pulse_count (encoder_state s) + 1) mod 100 = 0 then camera_trigger_count s + 1
      else camera_trigger_count s)"
  by (simp add: phase_a_edge_def Let_def camera_trigger_def emit_def ENCODER_TRIGGER_INTERVAL_def)

lemma phase_a_edge_io_log:
  "io_log (phase_a_edge inp s) =
     io_log s @ (if (pulse_count (encoder_state s) + 1) mod 100 = 0
                 then [Gpio_Put CAMERA_TRIGGER_PIN True, Sleep_Us 100, Gpio_Put CAMERA_TRIGGER_PIN False]
                 else [])"
  by (simp add: phase_a_edge_def Let_def camera_trigger_def emit_def ENCODER_TRIGGER_INTERVAL_def)

lemma handler_phase_a:
  "encoder_irq_handler ENCODER_A_PIN events inp s =
     snd (update_encoder_velocity (velocity_clock inp) (phase_a_edge inp s))"
  by (simp add: encoder_irq_handler_def)

lemma handler_phase_a_fields:
  "position (encoder_state (encoder_irq_handler ENCODER_A_PIN events inp s)) =
     (if level_a inp = level_b inp then position (encoder_state s) + 1
      else position (encoder_state s) - 1)"
  "last_pulse_time (encoder_state (encoder_irq_handler ENCODER_A_PIN events inp s)) = edge_clock inp"
  by (simp_all add: handler_phase_a update_velocity_frame phase_a_edge_def Let_def
        camera_trigger_def emit_def)

lemma handler_pulse_count:
  "pulse_count (encoder_state (encoder_irq_handler gpio events inp s)) =
     (if gpio = ENCODER_A_PIN then pulse_count (encoder_state s) + 1
      else pulse_count (encoder_state s))"
  by (simp add: encoder_irq_handler_def update_velocity_frame phase_a_edge_pulse_count)

lemma handler_trigger_count:
  "camera_trigger_count (encoder_irq_handler gpio events inp s) =
     (if gpio = ENCODER_A_PIN \<and> (pulse_count (encoder_state s) + 1) mod 100 = 0
      then camera_trigger_count s + 1 else camera_trigger_count s)"
  by (simp add: encoder_irq_handler_def update_velocity_frame phase_a_edge_trigger_count)

lemma trigger_fired_phase_a:
  "trigger_fired (ENCODER_A_PIN, events, inp) s \<longleftrightarrow>
     (pulse_count (encoder_state s) + 1) mod 100 = 0"
  by (simp add: trigger_fired_def handler_phase_a update_velocity_frame phase_a_edge_io_log)

lemma run_irqs_append: "run_irqs (es @ fs) s = run_irqs fs (run_irqs es s)"
  by (induction es arbitrary: s) auto

lemma a_edge_count_Cons:
  "a_edge_count ((gpio, events, inp) # es) =
     (if gpio = ENCODER_A_PIN then 1 else 0) + a_edge_count es"
  by (simp add: a_edge_count_def irq_gpio_def)

subsection \<open>Counting pulses without wrap-around\<close>

lemma word32_succ_mod100:
  fixes w :: "32 word"
  assumes "unat w + 1 < 2 ^ 32"
  shows "unat (w + 1) = unat w + 1"
    and "((w + 1) mod 100 = 0) \<longleftrightarrow> (unat w + 1) mod 100 = 0"
proof -
  show a: "unat (w + 1) = unat w + 1"
    using assms by (simp add: unat_word_ariths)
  have "((w + 1) mod 100 = 0) \<longleftrightarrow> unat ((w + 1) mod 100) = 0"
    by (simp add: unat_eq_0)
  also have "\<dots> \<longleftrightarrow> (unat w + 1) mod 100 = 0"
    by (simp add: unat_mod a)
  finally show "((w + 1) mod 100 = 0) \<longleftrightarrow> (unat w + 1) mod 100 = 0" .
qed

lemma Suc_div_100:
  "Suc n div 100 = (if Suc n mod 100 = 0 then Suc (n div 100) else n div 100)"
  by (simp add: div_Suc)

lemma trigger_count_inv_step:
  assumes inv: "trigger_count_inv s"
    and room: "unat (pulse_count (encoder_state s)) + (if gpio = ENCODER_A_PIN then 1 else 0) < 2 ^ 32"
  shows "trigger_count_inv (encoder_irq_handler gpio events inp s)"
proof (cases "gpio = ENCODER_A_PIN")
  case False
  then show ?thesis
    using inv by (simp add: trigger_count_inv_def handler_pulse_count handler_trigger_count)
next
  case True
  let ?p = "pulse_count (encoder_state s)"
  let ?c = "camera_trigger_count s"
  from True room have r: "unat ?p + 1 < 2 ^ 32" by simp
  note w = word32_succ_mod100 [OF r]
  from inv have c: "unat ?c = unat ?p div 100" by (simp add: trigger_count_inv_def)
  show ?thesis
  proof (cases "(unat ?p + 1) mod 100 = 0")
    case hit: True
    have "unat ?c + 1 < 2 ^ 32" using c r by simp
    then have "unat (?c + 1) = unat ?c + 1" by (simp add: unat_word_ariths)
    with hit c show ?thesis
      using True w
      by (simp add: trigger_count_inv_def handler_pulse_count handler_trigger_count Suc_div_100)
  next
    case miss: False
    with c show ?thesis
      using True w
      by (simp add: trigger_count_inv_def handler_pulse_count handler_trigger_count Suc_div_100)
  qed
qed

lemma run_irqs_trigger_count_inv:
  "trigger_count_inv s \<Longrightarrow> unat (pulse_count (encoder_state s)) + a_edge_count es < 2 ^ 32 \<Longrightarrow>
   trigger_count_inv (run_irqs es s) \<and>
   unat (pulse_count (encoder_state (run_irqs es s))) =
     unat (pulse_count (encoder_state s)) + a_edge_count es"
proof (induction es arbitrary: s)
  case Nil
  then show ?case by (simp add: a_edge_count_def)
next
  case (Cons e es)
  obtain gpio events inp where e: "e = (gpio, events, inp)" by (cases e)
  let ?s' = "encoder_irq_handler gpio events inp s"
  let ?d = "if gpio = ENCODER_A_PIN then 1 else (0::nat)"
  from Cons.prems e
  have room: "unat (pulse_count (encoder_state s)) + ?d + a_edge_count es < 2 ^ 32"
    by (simp add: a_edge_count_Cons add.assoc)
  then have room1: "unat (pulse_count (encoder_state s)) + ?d < 2 ^ 32" by simp
  have inv': "trigger_count_inv ?s'"
    using Cons.prems(1) room1 by (rule trigger_count_inv_step)
  have pc': "unat (pulse_count (encoder_state ?s')) = unat (pulse_count (encoder_state s)) + ?d"
    using room1 by (auto simp: handler_pulse_count unat_word_ariths)
  have "trigger_count_inv (run_irqs es ?s') \<and>
        unat (pulse_count (encoder_state (run_irqs es ?s'))) =
          unat (pulse_count (encoder_state ?s')) + a_edge_count es"
    using inv' room pc' by (intro Cons.IH) simp_all
  then show ?case using pc' e by (simp add: a_edge_count_Cons)
qed

lemma trigger_count_inv_init: "trigger_count_inv (encoder_init now boot_state)"
  by (simp add: trigger_count_inv_def encoder_init_def boot_state_def)

lemma a_edge_count_all:
  "\<forall>e\<in>set es. irq_gpio e = ENCODER_A_PIN \<Longrightarrow> a_edge_count es = length es"
  by (simp add: a_edge_count_def)

subsection \<open>Where the trigger fires in a run of phase-A edges\<close>

lemma filter_upt_Suc_shift:
  "filter P [0..<Suc m] = (if P 0 then [0] else []) @ map Suc (filter (\<lambda>i. P (Suc i)) [0..<m])"
proof -
  have "[0..<Suc m] = 0 # map Suc [0..<m]"
    by (simp add: upt_conv_Cons map_Suc_upt del: upt_Suc)
  then show ?thesis by (simp add: filter_map comp_def del: upt_Suc)
qed

lemma trigger_edges_filter:
  "\<forall>e\<in>set es. irq_gpio e = ENCODER_A_PIN \<Longrightarrow>
   unat (pulse_count (encoder_state s)) + length es < 2 ^ 32 \<Longrightarrow>
   trigger_edges k es s =
     map (\<lambda>i. k + i)
       (filter (\<lambda>i. (unat (pulse_count (encoder_state s)) + i + 1) mod 100 = 0) [0..<length es])"
proof (induction es arbitrary: k s)
  case Nil
  then show ?case by simp
next
  case (Cons e es)
  obtain events inp where e: "e = (ENCODER_A_PIN, events, inp)"
    using Cons.prems(1) by (cases e) (auto simp: irq_gpio_def)
  let ?n = "unat (pulse_count (encoder_state s))"
  let ?s' = "encoder_irq_handler ENCODER_A_PIN events inp s"
  from Cons.prems(2) have r: "?n + 1 < 2 ^ 32" by simp
  note w = word32_succ_mod100 [OF r]
  have pc': "unat (pulse_count (encoder_state ?s')) = Suc ?n"
    using w(1) by (simp add: handler_pulse_count)
  have fired: "trigger_fired e s \<longleftrightarrow> Suc ?n mod 100 = 0"
    using w(2) by (simp add: e trigger_fired_phase_a)
  have IH: "trigger_edges (Suc k) es ?s' =
      map (\<lambda>i. Suc k + i) (filter (\<lambda>i. (Suc ?n + i + 1) mod 100 = 0) [0..<length es])"
    using Cons.prems Cons.IH [of ?s' "Suc k"] by (simp add: pc')
  show ?case
    unfolding trigger_edges.simps length_Cons filter_upt_Suc_shift [of _ "length es"]
    using fired IH by (simp add: e comp_def del: upt_Suc)
qed

lemma multiples_of_100_up_to_250:
  "map (\<lambda>i. 1 + i) (filter (\<lambda>i. (0 + i + 1) mod 100 = 0) [0..<250]) = [100, 200::nat]"
  by code_simp

lemma trigger_edges_250:
  assumes "length es = 250" and "\<forall>e\<in>set es. irq_gpio e = ENCODER_A_PIN"
  shows "trigger_edges 1 es (encoder_init now boot_state) = [100, 200]"
proof -
  let ?s = "encoder_init now boot_state"
  have z: "unat (pulse_count (encoder_state ?s)) = 0"
    by (simp add: encoder_init_def)
  have "trigger_edges 1 es ?s =
     map (\<lambda>i. 1 + i)
       (filter (\<lambda>i. (unat (pulse_count (encoder_state ?s)) + i + 1) mod 100 = 0) [0..<length es])"
    using assms(1) z by (intro trigger_edges_filter [OF assms(2)]) simp
  also have "\<dots> = map (\<lambda>i. 1 + i) (filter (\<lambda>i. (0 + i + 1) mod 100 = 0) [0..<250])"
    unfolding z assms(1) ..
  also have "\<dots> = [100, 200]" by (rule multiples_of_100_up_to_250)
  finally show ?thesis .
qed

lemma trigger_count_250:
  assumes "length es = 250" and "\<forall>e\<in>set es. irq_gpio e = ENCODER_A_PIN"
  shows "camera_trigger_count (run_irqs es (encoder_init now boot_state)) = 2"
proof -
  let ?s = "encoder_init now boot_state"
  have z: "unat (pulse_count (encoder_state ?s)) = 0"
    by (simp add: encoder_init_def)
  have n: "a_edge_count es = 250"
    using assms by (simp add: a_edge_count_all)
  have "trigger_count_inv (run_irqs es ?s) \<and>
        unat (pulse_count (encoder_state (run_irqs es ?s))) =
          unat (pulse_count (encoder_state ?s)) + a_edge_count es"
    using trigger_count_inv_init by (rule run_irqs_trigger_count_inv) (simp add: z n)
  then have "unat (camera_trigger_count (run_irqs es ?s)) = unat (2 :: 32 word)"
    by (simp add: trigger_count_inv_def z n)
  then show ?thesis by (rule word_unat_eq_iff [THEN iffD2])
qed

subsection \<open>The rate limit of the velocity estimator\<close>

lemma path_estimated_iff:
  "fst (update_encoder_velocity t s) = Estimated \<longleftrightarrow> t - last_velocity_update s \<ge> 10000"
  by (auto simp: update_encoder_velocity_def Let_def word_le_nat_alt word_less_nat_alt)

lemma velocity_estimated_phase_a:
  "velocity_estimated (ENCODER_A_PIN, events, inp) s \<longleftrightarrow>
     velocity_clock inp - last_velocity_update s \<ge> 10000"
  by (simp add: velocity_estimated_def path_estimated_iff phase_a_edge_frame)

lemma update_velocity_last_update:
  "last_velocity_update (snd (update_encoder_velocity t s)) =
     (if t - last_velocity_update s \<ge> 10000 then t else last_velocity_update s)"
  by (simp add: update_encoder_velocity_def Let_def split: prod.split)

lemma handler_phase_a_last_update:
  "last_velocity_update (encoder_irq_handler ENCODER_A_PIN events inp s) =
     (if velocity_clock inp - last_velocity_update s \<ge> 10000 then velocity_clock inp
      else last_velocity_update s)"
  by (simp add: handler_phase_a update_velocity_last_update phase_a_edge_frame)

lemma clock_within_window:
  fixes c l :: "64 word"
  assumes "l \<le> c" and "unat c < unat l + 10000"
  shows "\<not> c - l \<ge> 10000"
proof -
  have "unat (c - l) = unat c - unat l" using assms(1) by (rule unat_sub)
  with assms(2) have "unat (c - l) < 10000" by simp
  then show ?thesis by (simp add: word_le_nat_alt)
qed

lemma velocity_updates_quiet:
  "\<forall>e\<in>set es. irq_gpio e = ENCODER_A_PIN \<and> last_velocity_update s \<le> irq_velocity_clock e \<and>
       unat (irq_velocity_clock e) < unat (last_velocity_update s) + 10000 \<Longrightarrow>
   velocity_updates es s = 0"
proof (induction es arbitrary: s)
  case Nil
  then show ?case by simp
next
  case (Cons e es)
  obtain events inp where e: "e = (ENCODER_A_PIN, events, inp)"
    using Cons.prems by (cases e) (auto simp: irq_gpio_def)
  have near: "\<not> velocity_clock inp - last_velocity_update s \<ge> 10000"
    using Cons.prems by (intro clock_within_window) (simp_all add: e irq_velocity_clock_def)
  then have same:
    "last_velocity_update (encoder_irq_handler ENCODER_A_PIN events inp s) = last_velocity_update s"
    by (simp add: handler_phase_a_last_update)
  have "velocity_updates es (encoder_irq_handler ENCODER_A_PIN events inp s) = 0"
    using Cons.prems by (intro Cons.IH) (simp add: same)
  with near show ?case by (simp add: e velocity_estimated_phase_a)
qed

subsection \<open>The velocity expression on small non-negative deltas\<close>

lemma sint_small32:
  fixes w :: "32 word"
  assumes "uint w < 2 ^ 31"
  shows "sint w = uint w"
proof -
  have "signed_take_bit 31 (uint w) = uint w"
    using assms uint_ge_0 [of w] by (intro signed_take_bit_int_eq_self) linarith+
  then show ?thesis by (simp add: sint_uint)
qed

lemma uint_nonneg32:
  fixes w :: "32 word"
  assumes "0 \<le> sint w"
  shows "uint w = sint w"
proof -
  have "sint w < 2 ^ 31" using sint_lt [of w] by simp
  then have "take_bit 32 (sint w) = sint w"
    using assms by (intro take_bit_int_eq_self) simp_all
  then show ?thesis using uint_sint [of w] by simp
qed

text \<open>
  While the delta is not negative and its product with 1000000 fits 31 bits (a delta of
  at most 2147 pulses), the C expression is the quotient of the specification.
\<close>

lemma velocity_expr_forward:
  assumes nonneg: "0 \<le> sint position_diff"
    and small: "sint position_diff * 1000000 < 2 ^ 31"
    and nonzero: "time_diff \<noteq> 0"
  shows "sint (velocity_expr position_diff time_diff) =
         velocity_quotient_spec (sint position_diff) (uint time_diff)"
proof -
  let ?p = "position_diff * 1000000"
  let ?v = "sint position_diff * 1000000"
  have u: "uint position_diff = sint position_diff" using nonneg by (rule uint_nonneg32)
  have v0: "0 \<le> ?v" using nonneg by simp
  have "uint ?p = ?v mod 2 ^ 32"
    by (simp add: uint_word_ariths u)
  also have "\<dots> = ?v" using v0 small by simp
  finally have up: "uint ?p = ?v" .
  have sp: "sint ?p = ?v" using up small by (simp add: sint_small32)
  have "(scast ?p :: 64 word) = word_of_int ?v"
    by (simp only: scast_eq sp)
  then have "uint (scast ?p :: 64 word) = ?v mod 2 ^ LENGTH(64)"
    by (simp only: uint_word_of_int)
  also have "\<dots> = ?v" using v0 small by simp
  finally have q: "uint ((scast ?p :: 64 word) div time_diff) = ?v div uint time_diff"
    by (simp add: uint_div)
  have "?v div uint time_diff \<le> ?v"
  proof (cases "?v = 0")
    case True
    then show ?thesis by simp
  next
    case False
    with v0 have "0 < ?v" by linarith
    then show ?thesis by (rule int_div_le_self)
  qed
  then have lt: "?v div uint time_diff < 2 ^ 31" using small by simp
  have ge: "0 \<le> ?v div uint time_diff"
    using v0 by (simp add: pos_imp_zdiv_nonneg_iff div_int_pos_iff)
  have "uint (velocity_expr position_diff time_diff) = (?v div uint time_diff) mod 2 ^ 32"
    unfolding velocity_expr_def by (simp only: unsigned_ucast_eq q take_bit_eq_mod) simp
  also have "\<dots> = ?v div uint time_diff" using lt ge by simp
  finally have "uint (velocity_expr position_diff time_diff) = ?v div uint time_diff" .
  with lt have "sint (velocity_expr position_diff time_diff) = ?v div uint time_diff"
    by (simp add: sint_small32)
  moreover have "0 < uint time_diff"
    using nonzero uint_ge_0 [of time_diff] uint_0_iff [of time_diff] by linarith
  then have "velocity_quotient_spec (sint position_diff) (uint time_diff) = ?v div uint time_diff"
    using v0 nonzero by (cases "?v = 0") (simp_all add: velocity_quotient_spec_def)
  ultimately show ?thesis by simp
qed

lemma velocity_expr_5_in_10ms: "sint (velocity_expr 5 10000) = 500"
  by (simp add: velocity_expr_def)

lemma no_update_at_zero_time_delta:
  "update_encoder_velocity (last_velocity_update s) s = (Rate_Limited, s)"
  by (simp add: update_encoder_velocity_def)

section \<open>Properties of the sampling loop\<close>

lemma iteration_io_eq:
  "iteration_io inp s =
     (if sample_due (loop_clock inp) s then
        [Mutex_Enter data_mutex,
         Store_Sample Timestamp_us, Store_Sample Encoder_position, Store_Sample Encoder_velocity,
         Store_Sample Camera_trigger_count, Store_Sample System_status,
         I2c_Write IMU_ACCEL_XOUT_H, I2c_Read 14,
         Store_Sample Accel_x, Store_Sample Accel_y, Store_Sample Accel_z,
         Store_Sample Gyro_x, Store_Sample Gyro_y, Store_Sample Gyro_z,
         Mutex_Enter uart_mutex,
         Uart_Puts (Telemetry_Json (current_data (loop_iteration inp s))),
         Mutex_Exit uart_mutex,
         Mutex_Exit data_mutex]
      else []) @
     (if loop_clock inp - last_status_update s \<ge> 1000000
      then [Gpio_Put STATUS_LED_PIN (\<not> led_state s)] else []) @
     (if loop_clock inp mod 10000000 = 0 then
        [I2c_Write IMU_WHO_AM_I, I2c_Read 1] @
        (if who_am_i_byte inp \<noteq> 0x71
         then [Gpio_Put ERROR_LED_PIN True, Mutex_Enter uart_mutex, Uart_Puts Imu_Error_Msg,
               Mutex_Exit uart_mutex]
         else [Gpio_Put ERROR_LED_PIN False])
      else []) @
     [Sleep_Us 100]"
  by (simp add: iteration_io_def loop_iteration_def Let_def imu_read_data_def send_data_uart_def
      status_led_toggle_def system_health_check_def emit_def)

lemma loop_iteration_sample:
  "encoder_position (current_data (loop_iteration inp s)) =
     (if sample_due (loop_clock inp) s then position (encoder_state s)
      else encoder_position (current_data s))"
  "encoder_velocity (current_data (loop_iteration inp s)) =
     (if sample_due (loop_clock inp) s then velocity (encoder_state s)
      else encoder_velocity (current_data s))"
  "data_camera_trigger_count (current_data (loop_iteration inp s)) =
     (if sample_due (loop_clock inp) s then camera_trigger_count s
      else data_camera_trigger_count (current_data s))"
  "timestamp_us (current_data (loop_iteration inp s)) =
     (if sample_due (loop_clock inp) s then loop_clock inp else timestamp_us (current_data s))"
  by (simp_all add: loop_iteration_def Let_def imu_read_data_def send_data_uart_def
      status_led_toggle_def system_health_check_def emit_def)

lemma first_sample_due: "sample_due (loop_clock first_sample_inputs) started_state"
  by (simp add: first_sample_inputs_def started_state_def encoder_init_def boot_state_def
      sample_due_def IMU_SAMPLE_RATE_HZ_def)

section \<open>The claims\<close>

text \<open>
  C2, as the code has it. In every pass of the sampling loop in which the sample timer
  has expired, the steps are, in this order: \<open>data_mutex\<close> is taken; the timestamp,
  position, velocity, trigger count and status are stored into the sample (the stored
  position, velocity and trigger count are those of the state at the start of the pass);
  the register-pointer write and the 14-byte read go over the inertial sensor's bus; the
  six sensor fields are stored; \<open>send_data_uart\<close> takes \<open>uart_mutex\<close>, writes the
  record to the UART and releases \<open>uart_mutex\<close>; and only then \<open>data_mutex\<close> is
  released. So the bus write, the bus read and the serial write all happen while
  \<open>data_mutex\<close> is held. In a pass in which the timer has not expired \<open>data_mutex\<close> is
  neither taken nor released and nothing is stored into the sample; the LED, health-check
  and sleep steps that end every pass do not touch \<open>data_mutex\<close>.
\<close>

theorem data_mutex_held_across_sensor_and_serial_io:
  "iteration_io inp s =
     (if sample_due (loop_clock inp) s then
        [Mutex_Enter data_mutex,
         Store_Sample Timestamp_us, Store_Sample Encoder_position, Store_Sample Encoder_velocity,
         Store_Sample Camera_trigger_count, Store_Sample System_status,
         I2c_Write IMU_ACCEL_XOUT_H, I2c_Read 14,
         Store_Sample Accel_x, Store_Sample Accel_y, Store_Sample Accel_z,
         Store_Sample Gyro_x, Store_Sample Gyro_y, Store_Sample Gyro_z,
         Mutex_Enter uart_mutex,
         Uart_Puts (Telemetry_Json (current_data (loop_iteration inp s))),
         Mutex_Exit uart_mutex,
         Mutex_Exit data_mutex]
      else []) @
     (if loop_clock inp - last_status_update s \<ge> 1000000
      then [Gpio_Put STATUS_LED_PIN (\<not> led_state s)] else []) @
     (if loop_clock inp mod 10000000 = 0 then
        [I2c_Write IMU_WHO_AM_I, I2c_Read 1] @
        (if who_am_i_byte inp \<noteq> 0x71
         then [Gpio_Put ERROR_LED_PIN True, Mutex_Enter uart_mutex, Uart_Puts Imu_Error_Msg,
               Mutex_Exit uart_mutex]
         else [Gpio_Put ERROR_LED_PIN False])
      else []) @
     [Sleep_Us 100] \<and>
   mutex_events data_mutex (iteration_io inp s) =
     (if sample_due (loop_clock inp) s then [Mutex_Enter data_mutex, Mutex_Exit data_mutex]
      else []) \<and>
   io_while_held data_mutex False (iteration_io inp s) =
     (if sample_due (loop_clock inp) s
      then [I2c_Write IMU_ACCEL_XOUT_H, I2c_Read 14,
            Uart_Puts (Telemetry_Json (current_data (loop_iteration inp s)))]
      else []) \<and>
   encoder_position (current_data (loop_iteration inp s)) =
     (if sample_due (loop_clock inp) s then position (encoder_state s)
      else encoder_position (current_data s)) \<and>
   encoder_velocity (current_data (loop_iteration inp s)) =
     (if sample_due (loop_clock inp) s then velocity (encoder_state s)
      else encoder_velocity (current_data s)) \<and>
   data_camera_trigger_count (current_data (loop_iteration inp s)) =
     (if sample_due (loop_clock inp) s then camera_trigger_count s
      else data_camera_trigger_count (current_data s))"
proof (intro conjI)
  show "mutex_events data_mutex (iteration_io inp s) =
     (if sample_due (loop_clock inp) s then [Mutex_Enter data_mutex, Mutex_Exit data_mutex]
      else [])"
    by (simp add: iteration_io_eq mutex_events_def)
  show "io_while_held data_mutex False (iteration_io inp s) =
     (if sample_due (loop_clock inp) s
      then [I2c_Write IMU_ACCEL_XOUT_H, I2c_Read 14,
            Uart_Puts (Telemetry_Json (current_data (loop_iteration inp s)))]
      else [])"
    by (simp add: iteration_io_eq)
qed (rule iteration_io_eq loop_iteration_sample)+

text \<open>
  The claim C2 as stated (no bus read and no serial write while \<open>data_mutex\<close> is held)
  fails in the first pass after start-up.
\<close>

theorem lock_only_for_copy_counterexample:
  "io_while_held data_mutex False (iteration_io first_sample_inputs started_state) =
     [I2c_Write IMU_ACCEL_XOUT_H, I2c_Read 14,
      Uart_Puts (Telemetry_Json (current_data (loop_iteration first_sample_inputs started_state)))]"
  by (simp add: iteration_io_eq first_sample_due)

text \<open>
  C3 at a failing input. Five phase-A edges of reverse motion, the fifth 10 ms after
  boot, leave the position at -5; the estimator then runs with a position delta of -5
  and a time delta of 10000 microseconds and stores -1161359657 as the velocity, where
  the signed quotient of the specification is -500. (The product -5000000 is converted
  to \<open>uint64_t\<close> before the division.)
\<close>

theorem negative_delta_velocity_is_not_the_signed_quotient:
  "sint (position (encoder_state (run_irqs five_reverse_edges (encoder_init 0 boot_state)))) = - 5 \<and>
   sint (velocity (encoder_state (run_irqs five_reverse_edges (encoder_init 0 boot_state))))
     = - 1161359657 \<and>
   velocity_quotient_spec (- 5) 10000 = - 500"
  by (simp add: five_reverse_edges_def reverse_edge_def encoder_init_def boot_state_def
      encoder_irq_handler_def phase_a_edge_def update_encoder_velocity_def velocity_expr_def
      Let_def ENCODER_A_PIN_def ENCODER_TRIGGER_INTERVAL_def velocity_quotient_spec_def)

text \<open>
  C4. After any run of interrupts, a further phase-A edge moves the position by exactly
  one (in 32-bit arithmetic): up when the sampled levels of A and B are equal, down when
  they differ; it increments the pulse count and stores the clock value it read as the
  last pulse time, whatever the levels are.
\<close>

theorem phase_a_edge_moves_position_by_one:
  "position (encoder_state (run_irqs (es @ [(ENCODER_A_PIN, events, inp)]) s)) =
     (if level_a inp = level_b inp then position (encoder_state (run_irqs es s)) + 1
      else position (encoder_state (run_irqs es s)) - 1) \<and>
   pulse_count (encoder_state (run_irqs (es @ [(ENCODER_A_PIN, events, inp)]) s)) =
     pulse_count (encoder_state (run_irqs es s)) + 1 \<and>
   last_pulse_time (encoder_state (run_irqs (es @ [(ENCODER_A_PIN, events, inp)]) s)) =
     edge_clock inp"
  by (simp add: run_irqs_append handler_phase_a_fields handler_pulse_count)

text \<open>
  C5. In a phase-A invocation the camera trigger fires exactly when the pulse count after
  the increment is a multiple of 100, and the trigger counter goes up by one exactly
  then. In every run of 250 phase-A edges from the zeroed state the trigger fires at the
  100th and at the 200th edge and nowhere else, and the trigger counter ends at 2.
\<close>

theorem camera_trigger_every_100_pulses:
  "(trigger_fired (ENCODER_A_PIN, events, inp) s \<longleftrightarrow>
      pulse_count (encoder_state (encoder_irq_handler ENCODER_A_PIN events inp s))
        mod ENCODER_TRIGGER_INTERVAL = 0) \<and>
   camera_trigger_count (encoder_irq_handler ENCODER_A_PIN events inp s) =
     (if trigger_fired (ENCODER_A_PIN, events, inp) s then camera_trigger_count s + 1
      else camera_trigger_count s) \<and>
   (length es = 250 \<and> (\<forall>e\<in>set es. irq_gpio e = ENCODER_A_PIN) \<longrightarrow>
      trigger_edges 1 es (encoder_init now boot_state) = [100, 200] \<and>
      camera_trigger_count (run_irqs es (encoder_init now boot_state)) = 2)"
proof (intro conjI impI)
  show "trigger_fired (ENCODER_A_PIN, events, inp) s \<longleftrightarrow>
      pulse_count (encoder_state (encoder_irq_handler ENCODER_A_PIN events inp s))
        mod ENCODER_TRIGGER_INTERVAL = 0"
    by (simp add: trigger_fired_phase_a handler_pulse_count ENCODER_TRIGGER_INTERVAL_def)
  show "camera_trigger_count (encoder_irq_handler ENCODER_A_PIN events inp s) =
     (if trigger_fired (ENCODER_A_PIN, events, inp) s then camera_trigger_count s + 1
      else camera_trigger_count s)"
    by (simp add: trigger_fired_phase_a handler_trigger_count)
next
  assume h: "length es = 250 \<and> (\<forall>e\<in>set es. irq_gpio e = ENCODER_A_PIN)"
  from h show "trigger_edges 1 es (encoder_init now boot_state) = [100, 200]"
    by (intro trigger_edges_250) simp_all
  from h show "camera_trigger_count (run_irqs es (encoder_init now boot_state)) = 2"
    by (intro trigger_count_250) simp_all
qed

theorem camera_trigger_every_100_pulses_witness:
  "length (replicate 250 (forward_edge 0)) = 250 \<and>
   trigger_edges 1 (replicate 250 (forward_edge 0)) (encoder_init 0 boot_state) = [100, 200] \<and>
   camera_trigger_count (run_irqs (replicate 250 (forward_edge 0)) (encoder_init 0 boot_state)) = 2"
  using camera_trigger_every_100_pulses
    [where es = "replicate 250 (forward_edge 0)" and now = 0 and s = boot_state and events = 8
       and inp = "\<lparr>edge_clock = 0, level_b = True, level_a = True, velocity_clock = 0\<rparr>"]
  by (simp add: forward_edge_def irq_gpio_def)

text \<open>
  C6. The clock is monotonic, so the clock values read by successive invocations are in
  ascending order. For every run of phase-A invocations whose clock values lie less than
  10 ms apart, and from every state of the estimator, at most one invocation makes a new
  velocity estimate, however many edges the run has; a burst of 1000 edges within 1 ms
  is such a run.
\<close>

theorem velocity_estimate_rate_limited:
  assumes "\<forall>e\<in>set es. irq_gpio e = ENCODER_A_PIN"
    and "sorted (map irq_velocity_clock es)"
    and "\<forall>e\<in>set es. \<forall>e'\<in>set es.
           unat (irq_velocity_clock e') < unat (irq_velocity_clock e) + 10000"
  shows "velocity_updates es s \<le> 1"
  using assms
proof (induction es arbitrary: s)
  case Nil
  then show ?case by simp
next
  case (Cons e es)
  obtain events inp where e: "e = (ENCODER_A_PIN, events, inp)"
    using Cons.prems(1) by (cases e) (auto simp: irq_gpio_def)
  let ?s' = "encoder_irq_handler ENCODER_A_PIN events inp s"
  show ?case
  proof (cases "velocity_clock inp - last_velocity_update s \<ge> 10000")
    case True
    then have lvu: "last_velocity_update ?s' = velocity_clock inp"
      by (simp add: handler_phase_a_last_update)
    have "velocity_updates es ?s' = 0"
    proof (rule velocity_updates_quiet, rule ballI)
      fix x assume x: "x \<in> set es"
      have "irq_velocity_clock e \<le> irq_velocity_clock x"
        using Cons.prems(2) x by simp
      moreover have "unat (irq_velocity_clock x) < unat (irq_velocity_clock e) + 10000"
        using Cons.prems(3) x by simp
      moreover have "irq_gpio x = ENCODER_A_PIN" using Cons.prems(1) x by simp
      ultimately show "irq_gpio x = ENCODER_A_PIN \<and>
         last_velocity_update ?s' \<le> irq_velocity_clock x \<and>
         unat (irq_velocity_clock x) < unat (last_velocity_update ?s') + 10000"
        by (simp add: lvu e irq_velocity_clock_def)
    qed
    with True show ?thesis by (simp add: e velocity_estimated_phase_a)
  next
    case False
    have "velocity_updates es ?s' \<le> 1"
      using Cons.prems by (intro Cons.IH) simp_all
    with False show ?thesis by (simp add: e velocity_estimated_phase_a)
  qed
qed

theorem velocity_estimate_rate_limited_witness:
  "length burst_of_1000 = 1000 \<and>
   sorted (map irq_velocity_clock burst_of_1000) \<and>
   unat (irq_velocity_clock (last burst_of_1000)) - unat (irq_velocity_clock (hd burst_of_1000)) < 1000 \<and>
   velocity_updates burst_of_1000 (encoder_init 0 boot_state) \<le> 1"
proof -
  have a: "\<forall>e\<in>set burst_of_1000. irq_gpio e = ENCODER_A_PIN"
    by (simp add: burst_of_1000_def forward_edge_def irq_gpio_def)
  have b: "sorted (map irq_velocity_clock burst_of_1000)"
    by (simp add: burst_of_1000_def forward_edge_def irq_velocity_clock_def sorted_append)
  have c: "\<forall>e\<in>set burst_of_1000. \<forall>e'\<in>set burst_of_1000.
      unat (irq_velocity_clock e') < unat (irq_velocity_clock e) + 1000"
    by (simp add: burst_of_1000_def forward_edge_def irq_velocity_clock_def)
  then have d: "\<forall>e\<in>set burst_of_1000. \<forall>e'\<in>set burst_of_1000.
      unat (irq_velocity_clock e') < unat (irq_velocity_clock e) + 10000"
    by fastforce
  have "length burst_of_1000 = 1000" by (simp add: burst_of_1000_def)
  moreover have "unat (irq_velocity_clock (last burst_of_1000)) -
      unat (irq_velocity_clock (hd burst_of_1000)) < 1000"
    by (simp add: burst_of_1000_def forward_edge_def irq_velocity_clock_def)
  ultimately show ?thesis
    using b velocity_estimate_rate_limited [OF a b d, of "encoder_init 0 boot_state"] by simp
qed

text \<open>
  C8. An invocation of the handler for the index pin sets \<open>index_detected\<close> and changes
  nothing else: position, pulse count, velocity and last pulse time keep their values
  (the position is not reset), and so does everything outside the encoder state.
\<close>

theorem index_pulse_only_sets_flag:
  "encoder_irq_handler ENCODER_INDEX_PIN events inp s =
     s\<lparr>encoder_state := (encoder_state s)\<lparr>index_detected := True\<rparr>\<rparr> \<and>
   index_detected (encoder_state (encoder_irq_handler ENCODER_INDEX_PIN events inp s)) \<and>
   position (encoder_state (encoder_irq_handler ENCODER_INDEX_PIN events inp s)) =
     position (encoder_state s) \<and>
   pulse_count (encoder_state (encoder_irq_handler ENCODER_INDEX_PIN events inp s)) =
     pulse_count (encoder_state s) \<and>
   velocity (encoder_state (encoder_irq_handler ENCODER_INDEX_PIN events inp s)) =
     velocity (encoder_state s) \<and>
   last_pulse_time (encoder_state (encoder_irq_handler ENCODER_INDEX_PIN events inp s)) =
     last_pulse_time (encoder_state s)"
  by (simp add: encoder_irq_handler_def ENCODER_INDEX_PIN_def ENCODER_A_PIN_def)

text \<open>
  C9. The estimator never takes the branch in which the guard \<open>time_diff > 0\<close> fails:
  it either leaves at the 10 ms test or assigns the velocity, and it assigns exactly
  when the time difference, the value the guard is evaluated on, is at least 10000
  microseconds.
\<close>

theorem divide_guard_never_skips:
  "fst (update_encoder_velocity current_time s) \<noteq> Guard_Skipped \<and>
   fst (update_encoder_velocity current_time s) =
     (if 10000 \<le> unat (current_time - last_velocity_update s) then Estimated else Rate_Limited)"
  by (auto simp: update_encoder_velocity_def Let_def word_le_nat_alt word_less_nat_alt)

text \<open>
  C10. After every run of interrupts (phase-A edges, index pulses, in any order) from the
  zeroed state set up by \<open>encoder_init\<close>, as long as the run has fewer than 2^32 phase-A
  edges, the camera trigger count is the pulse count divided by 100.
\<close>

theorem trigger_count_is_pulse_count_div_100:
  assumes "a_edge_count es < 2 ^ 32"
  shows "camera_trigger_count (run_irqs es (encoder_init now boot_state)) =
         pulse_count (encoder_state (run_irqs es (encoder_init now boot_state))) div 100"
proof -
  let ?s = "run_irqs es (encoder_init now boot_state)"
  have "trigger_count_inv ?s"
    using trigger_count_inv_init assms
      run_irqs_trigger_count_inv [of "encoder_init now boot_state" es]
    by (simp add: encoder_init_def)
  then have "unat (camera_trigger_count ?s) = unat (pulse_count (encoder_state ?s) div 100)"
    by (simp add: trigger_count_inv_def unat_div)
  then show ?thesis by (rule word_unat_eq_iff [THEN iffD2])
qed

theorem trigger_count_is_pulse_count_div_100_witness:
  "a_edge_count (replicate 250 (forward_edge 0)) < 2 ^ 32 \<and>
   camera_trigger_count (run_irqs (replicate 250 (forward_edge 0)) (encoder_init 0 boot_state)) =
     pulse_count (encoder_state (run_irqs (replicate 250 (forward_edge 0)) (encoder_init 0 boot_state)))
       div 100"
proof -
  have h: "a_edge_count (replicate 250 (forward_edge 0)) < 2 ^ 32"
    by (simp add: a_edge_count_def forward_edge_def irq_gpio_def)
  from h trigger_count_is_pulse_count_div_100 [OF h, of 0] show ?thesis by simp
qed

end
